theory Spec2Isabelle
  imports Main "HOL-Library.Word"
begin

section \<open>Data model of main.go\<close>

text \<open>
  The Go program keeps one \<open>Monitor\<close> value, probes a target, records the outcome under
  a lock and talks to Telegram. Everything the program obtains from outside (HTTP
  transport, the ping command, the clock) is a field of an environment record, one
  environment per invocation, so that every outcome of the outside world is an input
  of the model.
\<close>

record Config =
  Target :: string
  BotToken :: string
  ChatID :: string
  PingInterval :: int

text \<open>
  \<open>time.Time\<close> is modelled as the number of nanoseconds since Go's zero instant
  (January 1, year 1, 00:00:00 UTC); \<open>time.Duration\<close> is a number of nanoseconds in the
  range of a signed 64-bit integer.
\<close>

type_synonym Time = int
type_synonym Duration = int

record Monitor =
  config :: Config
  isUp :: bool
  lastChange :: Time
  lastCheck :: Time

text \<open>Go \<open>int\<close> and \<open>int64\<close> on a 64-bit platform; \<open>+\<close> wraps around.\<close>

type_synonym go_int = "64 word"

datatype error = Error string

fun Error_string :: "error \<Rightarrow> string" where
  "Error_string (Error s) = s"

record Response =
  StatusCode :: int

record TgMessage =
  Text :: string
  Chat_ID :: go_int

record TelegramUpdate =
  UpdateID :: go_int
  Message :: "TgMessage option"

text \<open>
  The outside world as one invocation sees it.
  \<^item> \<open>Get url\<close>: the result pair of \<open>client.Get(url)\<close>, an error or a response;
  \<^item> \<open>Run name args\<close>: the result of \<open>exec.Command(name, args...).Run()\<close>;
  \<^item> \<open>PostForm url form\<close>: the result pair of \<open>http.PostForm(url, form)\<close>;
  \<^item> \<open>FetchJSON url\<close>: \<open>http.Get(url)\<close> followed by decoding the body's \<open>result\<close>
    array, as \<open>getUpdates\<close> does;
  \<^item> \<open>Now\<close>: the reading of \<open>time.Now()\<close>;
  \<^item> \<open>DurationString\<close>: the standard library's \<open>Duration.String\<close>, and
    \<open>TrimSpace\<close>: the standard library's \<open>strings.TrimSpace\<close>; the program passes
    their results on and the model takes them as given.
\<close>

record Env =
  Get :: "string \<Rightarrow> error + Response"
  Run :: "string \<Rightarrow> string list \<Rightarrow> error option"
  PostForm :: "string \<Rightarrow> (string \<times> string list) list \<Rightarrow> error + Response"
  FetchJSON :: "string \<Rightarrow> error + TelegramUpdate list"
  Now :: Time
  DurationString :: "Duration \<Rightarrow> string"
  TrimSpace :: "string \<Rightarrow> string"

text \<open>What an invocation does to the outside, in program order.\<close>

datatype effect =
    LogPrintf string
  | SendTelegram string
  | GetUpdates go_int
  | ReplyToChat string string
  | Go string
  | Sleep nat

section \<open>Library functions the program calls\<close>

definition HasPrefix :: "string \<Rightarrow> string \<Rightarrow> bool" where
  "HasPrefix s p = (length p \<le> length s \<and> take (length p) s = p)"

definition IsZero :: "Time \<Rightarrow> bool" where
  "IsZero t = (t = 0)"

definition Second :: Duration where
  "Second = 1000000000"

definition maxDuration :: Duration where
  "maxDuration = 2 ^ 63 - 1"

definition minDuration :: Duration where
  "minDuration = - (2 ^ 63)"

text \<open>\<open>t.Sub(u)\<close>: the difference, saturated to the range of \<open>Duration\<close>.\<close>

definition Sub :: "Time \<Rightarrow> Time \<Rightarrow> Duration" where
  "Sub t u = max minDuration (min maxDuration (t - u))"

text \<open>
  \<open>d.Round(m)\<close>: the multiple of \<open>m\<close> nearest to \<open>d\<close>, halves away from zero,
  saturated; \<open>d\<close> itself when \<open>m \<le> 0\<close>.
\<close>

definition Round :: "Duration \<Rightarrow> Duration \<Rightarrow> Duration" where
  "Round d m =
     (if m \<le> 0 then d
      else if d < 0 then
        (let r = (- d) mod m in
         if r + r < m then d + r
         else if minDuration \<le> d - m + r then d - m + r else minDuration)
      else
        (let r = d mod m in
         if r + r < m then d - r
         else if d + m - r \<le> maxDuration then d + m - r else maxDuration))"

text \<open>\<open>fmt.Sprintf("%d", n)\<close>.\<close>

definition digit_char :: "nat \<Rightarrow> char" where
  "digit_char n = ''0123456789'' ! (n mod 10)"

fun show_nat :: "nat \<Rightarrow> string" where
  "show_nat n = (if n < 10 then [digit_char n] else show_nat (n div 10) @ [digit_char n])"

declare show_nat.simps [simp del]

definition show_int :: "int \<Rightarrow> string" where
  "show_int i = (if i < 0 then ''-'' @ show_nat (nat (- i)) else show_nat (nat i))"

text \<open>The two status glyphs of the source, as their UTF-8 bytes.\<close>

definition green_circle :: string where
  "green_circle = [CHR 0xF0, CHR 0x9F, CHR 0x9F, CHR 0xA2]"

definition red_circle :: string where
  "red_circle = [CHR 0xF0, CHR 0x9F, CHR 0x94, CHR 0xB4]"

section \<open>The prober: \<open>ping\<close> and \<open>httpCheck\<close>\<close>

definition httpCheck :: "Env \<Rightarrow> Monitor \<Rightarrow> bool" where
  "httpCheck w m =
     (case Get w (Target (config m)) of
        Inl err \<Rightarrow> False
      | Inr resp \<Rightarrow> StatusCode resp > 0)"

definition ping :: "Env \<Rightarrow> Monitor \<Rightarrow> bool" where
  "ping w m =
     (if HasPrefix (Target (config m)) ''http://'' \<or> HasPrefix (Target (config m)) ''https://''
      then httpCheck w m
      else (case Run w ''ping'' [''-c'', ''3'', ''-W'', ''2'', Target (config m)] of
              None \<Rightarrow> True
            | Some err \<Rightarrow> False))"

section \<open>The notifier: \<open>sendTelegram\<close>\<close>

definition sendTelegram :: "Env \<Rightarrow> Monitor \<Rightarrow> string \<Rightarrow> error option" where
  "sendTelegram w m message =
     (let apiURL = ''https://api.telegram.org/bot'' @ BotToken (config m) @ ''/sendMessage'' in
      case PostForm w apiURL [(''chat_id'', [ChatID (config m)]), (''text'', [message])] of
        Inl err \<Rightarrow> Some err
      | Inr resp \<Rightarrow>
          if StatusCode resp \<noteq> 200
          then Some (Error (''telegram API returned status '' @ show_int (StatusCode resp)))
          else None)"

section \<open>The transition detector: \<open>check\<close>\<close>

text \<open>
  \<open>check\<close> probes, reads the clock, and then, holding the lock to its end, stores
  \<open>lastCheck\<close>, compares with the recorded state, and on a change stores \<open>isUp\<close> and
  \<open>lastChange\<close>, builds the message, logs it and sends it. The result is the monitor
  after the call and what the call did to the outside.
\<close>

definition check :: "Env \<Rightarrow> Monitor \<Rightarrow> Monitor \<times> effect list" where
  "check w m =
     (let isUp' = ping w m;
          now = Now w;
          m1 = m\<lparr>lastCheck := now\<rparr>;
          prevUp = isUp m1;
          firstCheck = IsZero (lastChange m1)
      in
        if isUp' \<noteq> prevUp \<or> firstCheck then
          (let m2 = m1\<lparr>isUp := isUp', lastChange := now\<rparr>;
               msg =
                 (if isUp' then
                    (if firstCheck then
                       green_circle @ '' Network monitor started. '' @ Target (config m2) @ '' is UP.''
                     else
                       (let downtime = Round (Sub now (lastChange m2)) Second in
                        green_circle @ '' '' @ Target (config m2) @ '' is back UP! (was down for ''
                          @ DurationString w downtime @ '')''))
                  else
                    (if firstCheck then
                       red_circle @ '' Network monitor started. '' @ Target (config m2) @ '' is DOWN!''
                     else
                       red_circle @ '' '' @ Target (config m2) @ '' is DOWN!''))
           in (m2,
               [LogPrintf (''Status change: '' @ msg), SendTelegram msg] @
               (case sendTelegram w m2 msg of
                  Some err \<Rightarrow> [LogPrintf (''Failed to send Telegram message: '' @ Error_string err)]
                | None \<Rightarrow> [])))
        else
          (m1, [LogPrintf (''Ping '' @ Target (config m1) @ '': still ''
                  @ (if isUp' then ''UP'' else ''DOWN''))]))"

text \<open>\<open>&Monitor{config: config}\<close>: every other field has its zero value.\<close>

definition newMonitor :: "Config \<Rightarrow> Monitor" where
  "newMonitor cfg = \<lparr>config = cfg, isUp = False, lastChange = 0, lastCheck = 0\<rparr>"

text \<open>Successive invocations of \<open>check\<close>, one environment each, with their results.\<close>

fun checks :: "Monitor \<Rightarrow> Env list \<Rightarrow> (Monitor \<times> effect list) list" where
  "checks m [] = []"
| "checks m (w # ws) = check w m # checks (fst (check w m)) ws"

text \<open>An invocation notifies when it hands a message to \<open>sendTelegram\<close>.\<close>

fun is_send :: "effect \<Rightarrow> bool" where
  "is_send (SendTelegram msg) = True"
| "is_send e = False"

definition notified :: "Monitor \<times> effect list \<Rightarrow> bool" where
  "notified r = list_ex is_send (snd r)"

section \<open>The status report and the command loop: \<open>getStatus\<close>, \<open>getUpdates\<close>, \<open>runBot\<close>\<close>

definition Since :: "Env \<Rightarrow> Time \<Rightarrow> Duration" where
  "Since w t = Sub (Now w) t"

definition newline :: string where
  "newline = [CHR 0x0A]"

definition getStatus :: "Env \<Rightarrow> Monitor \<Rightarrow> string" where
  "getStatus w m =
     (let status = (if \<not> isUp m then ''DOWN '' @ red_circle else ''UP '' @ green_circle);
          duration = Round (Since w (lastChange m)) Second;
          lastCheckAgo = Round (Since w (lastCheck m)) Second
      in ''Target: '' @ Target (config m) @ newline @
         ''Status: '' @ status @ newline @
         ''Since: '' @ DurationString w duration @ '' ago'' @ newline @
         ''Last check: '' @ DurationString w lastCheckAgo @ '' ago'')"

definition getUpdates :: "Env \<Rightarrow> Monitor \<Rightarrow> go_int \<Rightarrow> error + TelegramUpdate list" where
  "getUpdates w m offset =
     FetchJSON w (''https://api.telegram.org/bot'' @ BotToken (config m)
                  @ ''/getUpdates?offset='' @ show_int (sint offset) @ ''&timeout=30'')"

text \<open>
  The body of the inner loop of \<open>runBot\<close> for an update that carries a message: the
  log line, then the replies chosen by the prefix of the trimmed text. \<open>Go chatID\<close> is
  the goroutine started for \<open>/ping\<close>; what it runs is \<open>pingTask\<close>.
\<close>

definition startText :: "string \<Rightarrow> string" where
  "startText chatID =
     ''Network Monitor Bot'' @ newline @ newline @ ''Your chat ID: '' @ chatID @ newline @ newline
     @ ''Commands:'' @ newline @ ''/status - Check current status''"

definition handleMessage :: "Env \<Rightarrow> Monitor \<Rightarrow> TgMessage \<Rightarrow> effect list" where
  "handleMessage w m msg =
     (let text = TrimSpace w (Text msg);
          chatID = show_int (sint (Chat_ID msg))
      in LogPrintf (''Received message from chat '' @ chatID @ '': '' @ text) #
         (if HasPrefix text ''/status'' then [ReplyToChat chatID (getStatus w m)]
          else if HasPrefix text ''/start'' then [ReplyToChat chatID (startText chatID)]
          else if HasPrefix text ''/ping'' then [ReplyToChat chatID ''Checking now...'', Go chatID]
          else []))"

definition pingTask :: "Env \<Rightarrow> Monitor \<Rightarrow> string \<Rightarrow> Monitor \<times> effect list" where
  "pingTask w m chatID =
     (let r = check w m in (fst r, snd r @ [ReplyToChat chatID (getStatus w (fst r))]))"

text \<open>
  While the loop works through a batch, the clock advances and other goroutines (the
  ticker, the goroutines started for \<open>/ping\<close>) may change the monitor. A \<open>view\<close>
  gives, for the position of an update in its batch, the environment and the monitor
  that the handling of that update sees.
\<close>

type_synonym view = "nat \<Rightarrow> Env \<times> Monitor"

text \<open>
  The inner loop \<open>for _, update := range updates\<close>, from position \<open>i\<close> of the batch
  on: the cursor moves past each update before the update is looked at. The result is
  the cursor after the loop and the effects of the loop.
\<close>

fun dispatch :: "view \<Rightarrow> nat \<Rightarrow> go_int \<Rightarrow> TelegramUpdate list \<Rightarrow> go_int \<times> effect list" where
  "dispatch v i offset [] = (offset, [])"
| "dispatch v i offset (update # updates) =
     (let offset' = UpdateID update + 1 in
      case Message update of
        None \<Rightarrow> dispatch v (Suc i) offset' updates
      | Some msg \<Rightarrow>
          (let r = dispatch v (Suc i) offset' updates
           in (fst r, handleMessage (fst (v i)) (snd (v i)) msg @ snd r)))"

text \<open>
  The outer loop \<open>for { ... }\<close> never ends by itself; the model runs it for as many
  iterations as it is given observations and returns the cursor reached and the
  effects so far. An observation \<open>(w, m, v)\<close> is what one iteration meets: the
  environment and the monitor at the poll, and the view of its batch.
\<close>

fun runBot_from :: "go_int \<Rightarrow> (Env \<times> Monitor \<times> view) list \<Rightarrow> go_int \<times> effect list" where
  "runBot_from offset [] = (offset, [])"
| "runBot_from offset ((w, m, v) # rest) =
     (case getUpdates w m offset of
        Inl err \<Rightarrow>
          (let r = runBot_from offset rest in
           (fst r, [GetUpdates offset, LogPrintf (''Error getting updates: '' @ Error_string err), Sleep 5]
                   @ snd r))
      | Inr updates \<Rightarrow>
          (let d = dispatch v 0 offset updates;
               r = runBot_from (fst d) rest
           in (fst r, [GetUpdates offset] @ snd d @ [Sleep 1] @ snd r)))"

definition runBot :: "(Env \<times> Monitor \<times> view) list \<Rightarrow> go_int \<times> effect list" where
  "runBot obs = runBot_from 0 obs"

text \<open>
  Observations on a trace: the offsets polled, the replies, and the effects that come
  from handling a message (its log line, its replies, its goroutine) as opposed to
  those of the loop around it.
\<close>

fun poll_offsets :: "effect list \<Rightarrow> go_int list" where
  "poll_offsets [] = []"
| "poll_offsets (GetUpdates offset # es) = offset # poll_offsets es"
| "poll_offsets (e # es) = poll_offsets es"

fun is_reply :: "effect \<Rightarrow> bool" where
  "is_reply (ReplyToChat chatID text) = True"
| "is_reply e = False"

fun is_handling :: "effect \<Rightarrow> bool" where
  "is_handling (LogPrintf s) = HasPrefix s ''Received message from chat ''"
| "is_handling (ReplyToChat chatID text) = True"
| "is_handling (Go chatID) = True"
| "is_handling e = False"

text \<open>
  What a run dispatches, by the same recursion as the loop: \<open>handlings\<close> lists, for
  each update of a batch that carries a message, its token and the effects of
  handling it; \<open>dispatched\<close> does so for every batch of a run, in order.
\<close>

fun handlings :: "view \<Rightarrow> nat \<Rightarrow> TelegramUpdate list \<Rightarrow> (go_int \<times> effect list) list" where
  "handlings v i [] = []"
| "handlings v i (update # updates) =
     (case Message update of
        None \<Rightarrow> handlings v (Suc i) updates
      | Some msg \<Rightarrow>
          (UpdateID update, handleMessage (fst (v i)) (snd (v i)) msg)
          # handlings v (Suc i) updates)"

fun dispatched :: "go_int \<Rightarrow> (Env \<times> Monitor \<times> view) list \<Rightarrow> (go_int \<times> effect list) list" where
  "dispatched offset [] = []"
| "dispatched offset ((w, m, v) # rest) =
     (case getUpdates w m offset of
        Inl err \<Rightarrow> dispatched offset rest
      | Inr updates \<Rightarrow>
          handlings v 0 updates @ dispatched (fst (dispatch v 0 offset updates)) rest)"

text \<open>
  \<open>honours\<close> says that the command source respects the cursor during the run: every
  response holds only tokens at or above the offset its poll requested, in strictly
  increasing order, and every token is below the largest \<open>int\<close>, \<open>2 ^ 63 - 1\<close>, so
  that the cursor \<open>UpdateID + 1\<close> does not wrap around.
\<close>

fun honours :: "go_int \<Rightarrow> (Env \<times> Monitor \<times> view) list \<Rightarrow> bool" where
  "honours offset [] = True"
| "honours offset ((w, m, v) # rest) =
     (case getUpdates w m offset of
        Inl err \<Rightarrow> honours offset rest
      | Inr updates \<Rightarrow>
          sorted_wrt (<) (map (\<lambda>u. sint (UpdateID u)) updates)
          \<and> list_all (\<lambda>u. sint offset \<le> sint (UpdateID u) \<and> sint (UpdateID u) < 2 ^ 63 - 1) updates
          \<and> honours (fst (dispatch v 0 offset updates)) rest)"

section \<open>Concrete inputs used in the examples\<close>

text \<open>
  Stand-ins for the two standard-library functions in the examples:
  \<open>secondsString\<close> agrees with \<open>Duration.String\<close> on whole numbers of seconds, and
  \<open>trimASCII\<close> agrees with \<open>strings.TrimSpace\<close> on ASCII text.
\<close>

definition secondsString :: "Duration \<Rightarrow> string" where
  "secondsString d =
     (let s = nat (\<bar>d\<bar> div Second);
          body = (if s < 60 then show_nat s @ ''s''
                  else if s < 3600 then show_nat (s div 60) @ ''m'' @ show_nat (s mod 60) @ ''s''
                  else show_nat (s div 3600) @ ''h'' @ show_nat (s div 60 mod 60) @ ''m''
                       @ show_nat (s mod 60) @ ''s'')
      in if d < 0 then ''-'' @ body else body)"

definition is_space :: "char \<Rightarrow> bool" where
  "is_space c = (c \<in> set [CHR 0x20, CHR 0x09, CHR 0x0A, CHR 0x0B, CHR 0x0C, CHR 0x0D])"

definition trimASCII :: "string \<Rightarrow> string" where
  "trimASCII s = rev (dropWhile is_space (rev (dropWhile is_space s)))"

definition ex_cfg :: Config where
  "ex_cfg = \<lparr>Target = ''example.org'', BotToken = ''TOKEN'', ChatID = ''7'', PingInterval = 300\<rparr>"

definition ex_url_cfg :: Config where
  "ex_url_cfg = \<lparr>Target = ''https://example.org'', BotToken = ''TOKEN'', ChatID = ''7'',
                 PingInterval = 300\<rparr>"

text \<open>
  \<open>ex_env up sendOk t\<close>: the target answers (with status 403 over HTTP) exactly when
  \<open>up\<close>, Telegram accepts a message exactly when \<open>sendOk\<close>, the clock reads \<open>t\<close>,
  and no command is waiting.
\<close>

definition ex_env :: "bool \<Rightarrow> bool \<Rightarrow> Time \<Rightarrow> Env" where
  "ex_env up sendOk t =
     \<lparr>Get = (\<lambda>url. if up then Inr \<lparr>StatusCode = 403\<rparr> else Inl (Error ''i/o timeout'')),
      Run = (\<lambda>name args. if up then None else Some (Error ''exit status 1'')),
      PostForm = (\<lambda>url form. if sendOk then Inr \<lparr>StatusCode = 200\<rparr>
                              else Inl (Error ''connection refused'')),
      FetchJSON = (\<lambda>url. Inr []),
      Now = t,
      DurationString = secondsString,
      TrimSpace = trimASCII\<rparr>"

text \<open>A monitor that recorded the target up, and one that recorded it down, at 100 s.\<close>

definition ex_up :: Monitor where
  "ex_up = \<lparr>config = ex_cfg, isUp = True, lastChange = 100000000000, lastCheck = 100000000000\<rparr>"

definition ex_down :: Monitor where
  "ex_down = \<lparr>config = ex_cfg, isUp = False, lastChange = 100000000000, lastCheck = 100000000000\<rparr>"

text \<open>Three commands with the tokens 5, 6 and 7, all from chat 42.\<close>

definition ex_updates :: "TelegramUpdate list" where
  "ex_updates =
     [\<lparr>UpdateID = 5, Message = Some \<lparr>Text = ''/start'', Chat_ID = 42\<rparr>\<rparr>,
      \<lparr>UpdateID = 6, Message = Some \<lparr>Text = ''/ping'', Chat_ID = 42\<rparr>\<rparr>,
      \<lparr>UpdateID = 7, Message = Some \<lparr>Text = ''hello'', Chat_ID = 42\<rparr>\<rparr>]"

text \<open>A command source that answers every poll, whatever its offset, with the same three commands.\<close>

definition ex_dup_env :: Env where
  "ex_dup_env = (ex_env True True 100000000000)\<lparr>FetchJSON := (\<lambda>url. Inr ex_updates)\<rparr>"

text \<open>
  A command source that answers a poll with the commands 8 and 9, and a view in which
  every update of a batch sees the clock at 160 s and the monitor \<open>ex_up\<close>.
\<close>

definition ex_next_updates :: "TelegramUpdate list" where
  "ex_next_updates =
     [\<lparr>UpdateID = 8, Message = Some \<lparr>Text = ''/ping'', Chat_ID = 42\<rparr>\<rparr>,
      \<lparr>UpdateID = 9, Message = Some \<lparr>Text = ''/start'', Chat_ID = 42\<rparr>\<rparr>]"

definition ex_next_env :: Env where
  "ex_next_env = (ex_env True True 100000000000)\<lparr>FetchJSON := (\<lambda>url. Inr ex_next_updates)\<rparr>"

definition ex_view :: view where
  "ex_view = (\<lambda>i. (ex_env True True 160000000000, ex_up))"

text \<open>A server that answers the GET with a response whose status code is 0.\<close>

definition ex_status0_env :: Env where
  "ex_status0_env = (ex_env True True 100000000000)\<lparr>Get := (\<lambda>url. Inr \<lparr>StatusCode = 0\<rparr>)\<rparr>"

section \<open>Facts about one invocation of \<open>check\<close> and about successive invocations\<close>

lemma check_fst:
  "fst (check w m) =
     (if ping w m \<noteq> isUp m \<or> IsZero (lastChange m)
      then m\<lparr>lastCheck := Now w, isUp := ping w m, lastChange := Now w\<rparr>
      else m\<lparr>lastCheck := Now w\<rparr>)"
  by (simp add: check_def Let_def)

lemma check_notified:
  "notified (check w m) \<longleftrightarrow> (ping w m \<noteq> isUp m \<or> IsZero (lastChange m))"
  by (simp add: check_def notified_def Let_def split: option.splits)

lemma ping_config: "config m = config m' \<Longrightarrow> ping w m = ping w m'"
  by (simp add: ping_def httpCheck_def)

lemma check_config: "config (fst (check w m)) = config m"
  by (simp add: check_fst)

lemma check_isUp: "isUp (fst (check w m)) = ping w m"
  by (auto simp add: check_fst)

lemma check_lastChange_set:
  "\<not> IsZero (Now w) \<Longrightarrow> \<not> IsZero (lastChange (fst (check w m)))"
  by (simp add: check_fst)

lemma length_checks: "length (checks m ws) = length ws"
  by (induction ws arbitrary: m) simp_all

lemma checks_nth:
  "k < length ws \<Longrightarrow> checks m ws ! k = check (ws ! k) ((m # map fst (checks m ws)) ! k)"
proof (induction ws arbitrary: m k)
  case Nil
  then show ?case by simp
next
  case (Cons w ws)
  show ?case
  proof (cases k)
    case 0
    then show ?thesis by simp
  next
    case (Suc j)
    with Cons.prems have "j < length ws" by simp
    from Cons.IH [OF this, of "fst (check w m)"] Suc show ?thesis by simp
  qed
qed

lemma checks_config:
  "k \<le> length ws \<Longrightarrow> config ((m # map fst (checks m ws)) ! k) = config m"
proof (induction ws arbitrary: m k)
  case Nil
  then show ?case by simp
next
  case (Cons w ws)
  show ?case
  proof (cases k)
    case 0
    then show ?thesis by simp
  next
    case (Suc j)
    with Cons.prems have "j \<le> length ws" by simp
    from Cons.IH [OF this, of "fst (check w m)"] Suc show ?thesis
      by (simp add: check_config)
  qed
qed

lemma checks_pre_Suc:
  "Suc j < length ws \<Longrightarrow>
     (m # map fst (checks m ws)) ! Suc j = fst (check (ws ! j) ((m # map fst (checks m ws)) ! j))"
  using checks_nth [of j ws m] by (simp add: length_checks)

lemma ex_ping_host: "ping (ex_env up ok t) (newMonitor ex_cfg) = up"
  by (simp add: ping_def ex_env_def newMonitor_def ex_cfg_def HasPrefix_def)

section \<open>Notification exactly on transitions\<close>

text \<open>
  Claim C1. Take any sequence of invocations of \<open>check\<close> on a monitor created by
  \<open>main\<close>. The \<open>k\<close>-th invocation hands a message to \<open>sendTelegram\<close> if and only if
  the probed value differs from the value of \<open>isUp\<close> recorded before it, or
  \<open>lastChange\<close> is still unset before it. The very first invocation always notifies.
  When no clock reading is the zero instant, \<open>lastChange\<close> is unset only before the
  first invocation and the recorded value is the previous probe, so the \<open>k\<close>-th
  invocation notifies if and only if it is the first or its probe differs from the
  probe before it.
\<close>

theorem check_notifies_iff_transition:
  assumes k: "k < length ws"
  shows "(let rs = checks (newMonitor cfg) ws;
              before = (newMonitor cfg # map fst rs) ! k
          in (notified (rs ! k) \<longleftrightarrow>
                (ping (ws ! k) before \<noteq> isUp before \<or> IsZero (lastChange before)))
             \<and> notified (rs ! 0)
             \<and> ((\<forall>w \<in> set ws. \<not> IsZero (Now w)) \<longrightarrow>
                  (notified (rs ! k) \<longleftrightarrow>
                     (k = 0 \<or> ping (ws ! k) (newMonitor cfg) \<noteq> ping (ws ! (k - 1)) (newMonitor cfg)))))"
proof -
  define m0 where "m0 = newMonitor cfg"
  define rs where "rs = checks m0 ws"
  define pre where "pre = (\<lambda>i. (m0 # map fst rs) ! i)"
  have step: "rs ! k = check (ws ! k) (pre k)"
    using k by (simp add: rs_def pre_def checks_nth)
  have A: "notified (rs ! k) \<longleftrightarrow>
             (ping (ws ! k) (pre k) \<noteq> isUp (pre k) \<or> IsZero (lastChange (pre k)))"
    by (simp add: step check_notified)
  have first: "rs ! 0 = check (ws ! 0) m0"
    using k checks_nth [of 0 ws m0] by (cases ws) (simp_all add: rs_def)
  have B: "notified (rs ! 0)"
    by (simp add: first check_notified m0_def newMonitor_def IsZero_def)
  have C: "notified (rs ! k) \<longleftrightarrow> (k = 0 \<or> ping (ws ! k) m0 \<noteq> ping (ws ! (k - 1)) m0)"
    if nz: "\<forall>w \<in> set ws. \<not> IsZero (Now w)"
  proof (cases k)
    case 0
    with B show ?thesis by simp
  next
    case (Suc j)
    have j: "j < length ws" using k Suc by simp
    have pk: "pre k = fst (check (ws ! j) (pre j))"
      using k Suc checks_pre_Suc [of j ws m0] by (simp add: pre_def rs_def)
    have up: "isUp (pre k) = ping (ws ! j) (pre j)"
      by (simp add: pk check_isUp)
    have "\<not> IsZero (Now (ws ! j))" using nz j by simp
    then have set: "\<not> IsZero (lastChange (pre k))"
      by (simp only: pk check_lastChange_set not_False_eq_True)
    have cj: "config (pre j) = config m0"
      using j checks_config [of j ws m0] by (simp add: pre_def rs_def)
    have ck: "config (pre k) = config m0"
      using k checks_config [of k ws m0] by (simp add: pre_def rs_def)
    have "ping (ws ! j) (pre j) = ping (ws ! j) m0"
      by (rule ping_config [OF cj])
    moreover have "ping (ws ! k) (pre k) = ping (ws ! k) m0"
      by (rule ping_config [OF ck])
    ultimately show ?thesis
      using A up set Suc by simp
  qed
  show ?thesis
    using A B C by (simp add: Let_def m0_def rs_def pre_def)
qed

theorem check_notifies_iff_transition_witness:
  "(2::nat) < length [ex_env True True 100, ex_env True True 200, ex_env False True 300]
   \<and> \<not> IsZero (Now (ex_env True True 100))
   \<and> \<not> IsZero (Now (ex_env True True 200))
   \<and> \<not> IsZero (Now (ex_env False True 300))
   \<and> notified (checks (newMonitor ex_cfg)
        [ex_env True True 100, ex_env True True 200, ex_env False True 300] ! 0)
   \<and> notified (checks (newMonitor ex_cfg)
        [ex_env True True 100, ex_env True True 200, ex_env False True 300] ! 2)"
proof -
  let ?ws = "[ex_env True True 100, ex_env True True 200, ex_env False True 300]"
  have len: "(2::nat) < length ?ws" by simp
  have nz: "\<forall>w \<in> set ?ws. \<not> IsZero (Now w)"
    by (simp add: IsZero_def ex_env_def)
  have diff: "ping (?ws ! 2) (newMonitor ex_cfg) \<noteq> ping (?ws ! (2 - 1)) (newMonitor ex_cfg)"
    by (simp add: ex_ping_host)
  from check_notifies_iff_transition [OF len, of ex_cfg]
  have "notified (checks (newMonitor ex_cfg) ?ws ! 0)
        \<and> ((\<forall>w \<in> set ?ws. \<not> IsZero (Now w)) \<longrightarrow>
             (notified (checks (newMonitor ex_cfg) ?ws ! 2) \<longleftrightarrow>
                ((2::nat) = 0 \<or> ping (?ws ! 2) (newMonitor ex_cfg)
                                  \<noteq> ping (?ws ! (2 - 1)) (newMonitor ex_cfg))))"
    unfolding Let_def by blast
  with nz diff have "notified (checks (newMonitor ex_cfg) ?ws ! 0)
        \<and> notified (checks (newMonitor ex_cfg) ?ws ! 2)"
    by blast
  with len nz show ?thesis by simp
qed

section \<open>The downtime in the back-up message\<close>

lemma Sub_self: "Sub t t = 0"
  by (simp add: Sub_def minDuration_def maxDuration_def)

lemma Round_zero: "Round 0 Second = 0"
  by (simp add: Round_def Second_def)

lemma check_back_up_message:
  assumes "ping w m" and "\<not> isUp m" and "\<not> IsZero (lastChange m)"
  shows "snd (check w m) =
           [LogPrintf (''Status change: '' @ green_circle @ '' '' @ Target (config m)
                        @ '' is back UP! (was down for '' @ DurationString w 0 @ '')''),
            SendTelegram (green_circle @ '' '' @ Target (config m)
                        @ '' is back UP! (was down for '' @ DurationString w 0 @ '')'')]
           @ (case sendTelegram w (fst (check w m))
                     (green_circle @ '' '' @ Target (config m)
                        @ '' is back UP! (was down for '' @ DurationString w 0 @ '')'') of
                Some err \<Rightarrow> [LogPrintf (''Failed to send Telegram message: '' @ Error_string err)]
              | None \<Rightarrow> [])"
  using assms by (simp add: check_def Let_def Sub_self Round_zero)

lemma ex_ping_host_any: "config m = ex_cfg \<Longrightarrow> ping (ex_env up ok t) m = up"
  by (simp add: ping_def ex_env_def ex_cfg_def HasPrefix_def)

lemma secondsString_0: "secondsString 0 = ''0s''"
  by (simp add: secondsString_def Second_def show_nat.simps digit_char_def)

lemma secondsString_60: "secondsString 60000000000 = ''1m0s''"
  by (simp add: secondsString_def Second_def show_nat.simps digit_char_def)

text \<open>
  Claim C2. The monitor recorded the target down at 100 s; a check at 160 s finds it up.
  The message \<open>check\<close> builds says "was down for 0s": \<open>lastChange\<close> is overwritten
  with \<open>now\<close> before \<open>now.Sub(m.lastChange)\<close> is computed, so the downtime is the
  duration from \<open>now\<close> to \<open>now\<close>. The duration from the previous \<open>lastChange\<close> to
  \<open>now\<close>, which the message is meant to report, is one minute. The lemma
  \<open>check_back_up_message\<close> above shows the same for every monitor and environment.
\<close>

theorem check_back_up_reports_zero_downtime:
  "snd (check (ex_env True True 160000000000) ex_down) =
     [LogPrintf (''Status change: '' @ green_circle @ '' example.org is back UP! (was down for 0s)''),
      SendTelegram (green_circle @ '' example.org is back UP! (was down for 0s)'')]
   \<and> DurationString (ex_env True True 160000000000)
        (Round (Sub (Now (ex_env True True 160000000000)) (lastChange ex_down)) Second) = ''1m0s''"
proof -
  let ?w = "ex_env True True 160000000000"
  have p: "ping ?w ex_down"
    by (simp add: ex_ping_host_any ex_down_def)
  have d: "\<not> isUp ex_down" "\<not> IsZero (lastChange ex_down)"
    by (simp_all add: ex_down_def IsZero_def)
  have ds: "DurationString ?w = secondsString" "PostForm ?w = (\<lambda>url form. Inr \<lparr>StatusCode = 200\<rparr>)"
    by (simp_all add: ex_env_def)
  have t: "Target (config ex_down) = ''example.org''"
    by (simp add: ex_down_def ex_cfg_def)
  have s: "sendTelegram ?w mm msg = None" for mm msg
    by (simp add: sendTelegram_def ds)
  have A: "snd (check ?w ex_down) =
     [LogPrintf (''Status change: '' @ green_circle @ '' example.org is back UP! (was down for 0s)''),
      SendTelegram (green_circle @ '' example.org is back UP! (was down for 0s)'')]"
    by (simp add: check_back_up_message [OF p d] ds t s secondsString_0)
  have "Sub (Now ?w) (lastChange ex_down) = 60000000000"
    by (simp add: Sub_def ex_env_def ex_down_def minDuration_def maxDuration_def)
  moreover have "Round 60000000000 Second = 60000000000"
    by (simp add: Round_def Second_def)
  ultimately have B: "DurationString ?w (Round (Sub (Now ?w) (lastChange ex_down)) Second) = ''1m0s''"
    by (simp add: ds secondsString_60)
  from A B show ?thesis by simp
qed

theorem check_back_up_reports_zero_downtime_witness:
  "length (snd (check (ex_env True True 160000000000) ex_down)) = 2
   \<and> snd (check (ex_env True True 160000000000) ex_down) ! 1 =
       SendTelegram (green_circle @ '' example.org is back UP! (was down for 0s)'')"
  using check_back_up_reports_zero_downtime by simp

section \<open>Timestamps\<close>

lemma check_lastCheck: "lastCheck (fst (check w m)) = Now w"
  by (simp add: check_fst)

lemma checks_lastCheck: "map (\<lambda>r. lastCheck (fst r)) (checks m ws) = map Now ws"
  by (induction ws arbitrary: m) (simp_all add: check_lastCheck)

lemma check_invariant:
  "lastChange m \<le> lastCheck m \<Longrightarrow> lastCheck m \<le> Now w \<Longrightarrow>
     lastChange (fst (check w m)) \<le> lastCheck (fst (check w m))"
  by (simp add: check_fst)

lemma checks_invariant:
  "lastChange m \<le> lastCheck m \<Longrightarrow> sorted (lastCheck m # map Now ws) \<Longrightarrow>
     \<forall>r \<in> set (checks m ws). lastChange (fst r) \<le> lastCheck (fst r)"
proof (induction ws arbitrary: m)
  case Nil
  then show ?case by simp
next
  case (Cons w ws)
  let ?m' = "fst (check w m)"
  from Cons.prems have le: "lastCheck m \<le> Now w" by simp
  have inv: "lastChange ?m' \<le> lastCheck ?m'"
    using Cons.prems(1) le by (rule check_invariant)
  from Cons.prems(2) have "sorted (lastCheck ?m' # map Now ws)"
    by (simp add: check_lastCheck)
  from Cons.IH [OF inv this] inv show ?case by simp
qed

lemma check_first_invariant:
  "IsZero (lastChange m) \<Longrightarrow> lastChange (fst (check w m)) \<le> lastCheck (fst (check w m))"
  by (simp add: check_fst)

text \<open>
  Claim C3. On a monitor created by \<open>main\<close>, for every sequence of invocations of
  \<open>check\<close> whose clock readings do not decrease, the values of \<open>lastCheck\<close> after
  the invocations do not decrease, and after every invocation
  \<open>lastChange \<le> lastCheck\<close>.
\<close>

theorem lastCheck_monotone_lastChange_le_lastCheck:
  assumes "sorted (map Now ws)"
  shows "sorted (map (\<lambda>r. lastCheck (fst r)) (checks (newMonitor cfg) ws))
         \<and> (\<forall>r \<in> set (checks (newMonitor cfg) ws). lastChange (fst r) \<le> lastCheck (fst r))"
proof (cases ws)
  case Nil
  then show ?thesis by simp
next
  case (Cons w ws')
  let ?m0 = "newMonitor cfg"
  let ?m1 = "fst (check w ?m0)"
  have z: "IsZero (lastChange ?m0)" by (simp add: newMonitor_def IsZero_def)
  have inv1: "lastChange ?m1 \<le> lastCheck ?m1"
    using z by (rule check_first_invariant)
  from assms Cons have "sorted (lastCheck ?m1 # map Now ws')"
    by (simp add: check_lastCheck)
  from checks_invariant [OF inv1 this] inv1 Cons
  have "\<forall>r \<in> set (checks ?m0 ws). lastChange (fst r) \<le> lastCheck (fst r)" by simp
  moreover have "sorted (map (\<lambda>r. lastCheck (fst r)) (checks ?m0 ws))"
    using assms by (simp only: checks_lastCheck)
  ultimately show ?thesis by simp
qed

theorem lastCheck_monotone_lastChange_le_lastCheck_witness:
  "sorted (map Now [ex_env True True 100, ex_env True True 200, ex_env False True 200])
   \<and> map (\<lambda>r. lastCheck (fst r))
        (checks (newMonitor ex_cfg) [ex_env True True 100, ex_env True True 200, ex_env False True 200])
       = [100, 200, 200]
   \<and> map (\<lambda>r. lastChange (fst r))
        (checks (newMonitor ex_cfg) [ex_env True True 100, ex_env True True 200, ex_env False True 200])
       = [100, 100, 200]
   \<and> sorted (map (\<lambda>r. lastCheck (fst r))
        (checks (newMonitor ex_cfg) [ex_env True True 100, ex_env True True 200, ex_env False True 200]))"
proof -
  let ?ws = "[ex_env True True 100, ex_env True True 200, ex_env False True 200]"
  have now: "Now (ex_env u k t) = t" for u k t by (simp add: ex_env_def)
  have h: "sorted (map Now ?ws)" by (simp add: now)
  have c: "config (newMonitor ex_cfg) = ex_cfg" by (simp add: newMonitor_def)
  have a: "map (\<lambda>r. lastCheck (fst r)) (checks (newMonitor ex_cfg) ?ws) = [100, 200, 200]"
    by (simp add: check_fst now)
  have b: "map (\<lambda>r. lastChange (fst r)) (checks (newMonitor ex_cfg) ?ws) = [100, 100, 200]"
    by (simp add: check_fst now ex_ping_host_any c IsZero_def) (simp add: newMonitor_def)
  from lastCheck_monotone_lastChange_le_lastCheck [OF h, of ex_cfg] h a b
  show ?thesis by simp
qed

section \<open>Two checks in a row with the same value\<close>

lemma ex_env_Now: "Now (ex_env up ok t) = t"
  by (simp add: ex_env_def)

lemma ex_up_config: "config ex_up = ex_cfg"
  by (simp add: ex_up_def)

text \<open>
  Claim C6, as stated, fails: on a monitor that already recorded the target up, two
  invocations in a row that both find it up produce no event at all, not one event
  on the first call.
\<close>

theorem check_twice_same_value_counterexample:
  "ping (ex_env True True 200000000000) ex_up = ping (ex_env True True 300000000000) ex_up
   \<and> map notified (checks ex_up [ex_env True True 200000000000, ex_env True True 300000000000])
       = [False, False]"
proof -
  have z: "\<not> IsZero (lastChange ex_up)" "isUp ex_up"
    by (simp_all add: ex_up_def IsZero_def)
  have p: "ping (ex_env True True t) ex_up" for t
    by (simp add: ex_ping_host_any ex_up_config)
  have p': "ping (ex_env True True t) (ex_up\<lparr>lastCheck := t'\<rparr>)" for t t'
    by (simp add: ex_ping_host_any ex_up_config)
  show ?thesis
    by (simp add: check_notified check_fst p p' z)
qed

text \<open>
  Claim C6, amended. Two invocations of \<open>check\<close> in a row probe the same value, and
  the clock reading of the first is not the zero instant. Then the second invocation
  never notifies, and the first notifies exactly when the value differs from the
  recorded one or \<open>lastChange\<close> is unset. On a monitor created by \<open>main\<close> this is
  exactly one event, on the first call.
\<close>

theorem check_twice_same_value:
  assumes same: "ping w1 m = ping w2 m" and nz: "\<not> IsZero (Now w1)"
  shows "map notified (checks m [w1, w2]) = [ping w1 m \<noteq> isUp m \<or> IsZero (lastChange m), False]
         \<and> (m = newMonitor cfg \<longrightarrow> map notified (checks m [w1, w2]) = [True, False])"
proof -
  let ?m1 = "fst (check w1 m)"
  have c: "config ?m1 = config m" by (rule check_config)
  have "ping w2 ?m1 = ping w2 m" by (rule ping_config [OF c])
  with same have "ping w2 ?m1 = isUp ?m1" by (simp add: check_isUp)
  moreover have "\<not> IsZero (lastChange ?m1)" using nz by (rule check_lastChange_set)
  ultimately have second: "\<not> notified (check w2 ?m1)" by (simp add: check_notified)
  have A: "map notified (checks m [w1, w2]) = [ping w1 m \<noteq> isUp m \<or> IsZero (lastChange m), False]"
    using second by (simp add: check_notified)
  have B: "map notified (checks m [w1, w2]) = [True, False]" if "m = newMonitor cfg"
  proof -
    from that have "IsZero (lastChange m)" by (simp add: newMonitor_def IsZero_def)
    then have "(ping w1 m \<noteq> isUp m \<or> IsZero (lastChange m)) = True" by simp
    with A show ?thesis by (simp only:)
  qed
  from A B show ?thesis by blast
qed

theorem check_twice_same_value_witness:
  "ping (ex_env True True 200) (newMonitor ex_cfg) = ping (ex_env True True 300) (newMonitor ex_cfg)
   \<and> \<not> IsZero (Now (ex_env True True 200))
   \<and> map notified (checks (newMonitor ex_cfg) [ex_env True True 200, ex_env True True 300])
       = [True, False]"
proof -
  have same: "ping (ex_env True True 200) (newMonitor ex_cfg)
                = ping (ex_env True True 300) (newMonitor ex_cfg)"
    by (simp add: ex_ping_host)
  have nz: "\<not> IsZero (Now (ex_env True True 200))"
    by (simp add: ex_env_Now IsZero_def)
  from check_twice_same_value [OF same nz, of ex_cfg]
  have "map notified (checks (newMonitor ex_cfg) [ex_env True True 200, ex_env True True 300])
          = [True, False]"
    by blast
  with same nz show ?thesis by blast
qed

section \<open>Recording does not depend on the notification\<close>

text \<open>
  Claim C8. When an invocation of \<open>check\<close> finds a transition, the monitor after it
  has \<open>isUp\<close> set to the probed value and \<open>lastChange\<close> and \<open>lastCheck\<close> set to the
  clock reading, and this state is the same whatever \<open>http.PostForm\<close> returns to
  \<open>sendTelegram\<close>. An error of \<open>sendTelegram\<close> adds one log line after the send and
  nothing else; \<open>check\<close> always returns.
\<close>

theorem check_records_despite_send_failure:
  assumes "ping w m \<noteq> isUp m \<or> IsZero (lastChange m)"
  shows "fst (check w m) = m\<lparr>lastCheck := Now w, isUp := ping w m, lastChange := Now w\<rparr>
         \<and> fst (check (w\<lparr>PostForm := post\<rparr>) m) = fst (check w m)
         \<and> (\<exists>msg. snd (check w m) =
               [LogPrintf (''Status change: '' @ msg), SendTelegram msg] @
               (case sendTelegram w (fst (check w m)) msg of
                  Some err \<Rightarrow> [LogPrintf (''Failed to send Telegram message: '' @ Error_string err)]
                | None \<Rightarrow> []))"
proof -
  have p: "ping (w\<lparr>PostForm := post\<rparr>) m = ping w m"
    by (simp add: ping_def httpCheck_def)
  have A: "fst (check w m) = m\<lparr>lastCheck := Now w, isUp := ping w m, lastChange := Now w\<rparr>"
    using assms by (simp add: check_fst)
  have B: "fst (check (w\<lparr>PostForm := post\<rparr>) m) = fst (check w m)"
    by (simp add: check_fst p)
  have C: "\<exists>msg. snd (check w m) =
               [LogPrintf (''Status change: '' @ msg), SendTelegram msg] @
               (case sendTelegram w (fst (check w m)) msg of
                  Some err \<Rightarrow> [LogPrintf (''Failed to send Telegram message: '' @ Error_string err)]
                | None \<Rightarrow> [])"
    using assms by (simp add: A) (simp add: check_def Let_def)
  from A B C show ?thesis by blast
qed

theorem check_records_despite_send_failure_witness:
  "(ping (ex_env True False 200) (newMonitor ex_cfg) \<noteq> isUp (newMonitor ex_cfg))
   \<and> sendTelegram (ex_env True False 200) (newMonitor ex_cfg) ''x'' = Some (Error ''connection refused'')
   \<and> fst (check (ex_env True False 200) (newMonitor ex_cfg))
       = \<lparr>config = ex_cfg, isUp = True, lastChange = 200, lastCheck = 200\<rparr>"
proof -
  let ?w = "ex_env True False 200"
  have h: "ping ?w (newMonitor ex_cfg) \<noteq> isUp (newMonitor ex_cfg)"
    by (simp add: ex_ping_host) (simp add: newMonitor_def)
  then have h': "ping ?w (newMonitor ex_cfg) \<noteq> isUp (newMonitor ex_cfg)
                 \<or> IsZero (lastChange (newMonitor ex_cfg))" ..
  have s: "sendTelegram ?w (newMonitor ex_cfg) ''x'' = Some (Error ''connection refused'')"
    by (simp add: sendTelegram_def ex_env_def)
  from check_records_despite_send_failure [OF h', of "PostForm ?w"]
  have "fst (check ?w (newMonitor ex_cfg))
          = (newMonitor ex_cfg)\<lparr>lastCheck := Now ?w, isUp := ping ?w (newMonitor ex_cfg),
                                 lastChange := Now ?w\<rparr>"
    by blast
  then have "fst (check ?w (newMonitor ex_cfg))
          = \<lparr>config = ex_cfg, isUp = True, lastChange = 200, lastCheck = 200\<rparr>"
    by (simp add: ex_ping_host ex_env_Now) (simp add: newMonitor_def)
  with h s show ?thesis by simp
qed

section \<open>No transition: only \<open>lastCheck\<close> changes\<close>

text \<open>
  Claim C9. When the probed value equals the recorded \<open>isUp\<close> and \<open>lastChange\<close> is
  set, \<open>check\<close> changes \<open>lastCheck\<close> and no other field, and does not notify.
\<close>

theorem check_without_transition_only_lastCheck:
  assumes "ping w m = isUp m" and "\<not> IsZero (lastChange m)"
  shows "fst (check w m) = m\<lparr>lastCheck := Now w\<rparr>
         \<and> isUp (fst (check w m)) = isUp m
         \<and> lastChange (fst (check w m)) = lastChange m
         \<and> lastCheck (fst (check w m)) = Now w
         \<and> \<not> notified (check w m)"
  using assms by (simp add: check_fst check_notified)

theorem check_without_transition_only_lastCheck_witness:
  "ping (ex_env True True 200000000000) ex_up = isUp ex_up
   \<and> \<not> IsZero (lastChange ex_up)
   \<and> fst (check (ex_env True True 200000000000) ex_up)
       = \<lparr>config = ex_cfg, isUp = True, lastChange = 100000000000, lastCheck = 200000000000\<rparr>"
proof -
  let ?w = "ex_env True True 200000000000"
  have h1: "ping ?w ex_up = isUp ex_up"
    by (simp add: ex_ping_host_any ex_up_config) (simp add: ex_up_def)
  have h2: "\<not> IsZero (lastChange ex_up)"
    by (simp add: ex_up_def IsZero_def)
  from check_without_transition_only_lastCheck [OF h1 h2]
  have "fst (check ?w ex_up) = ex_up\<lparr>lastCheck := Now ?w\<rparr>" by blast
  then have "fst (check ?w ex_up)
       = \<lparr>config = ex_cfg, isUp = True, lastChange = 100000000000, lastCheck = 200000000000\<rparr>"
    by (simp add: ex_env_Now) (simp add: ex_up_def)
  with h1 h2 show ?thesis by simp
qed

section \<open>The probe returns a boolean\<close>

text \<open>
  Claim C4. \<open>ping\<close> and \<open>httpCheck\<close> are total functions into \<open>bool\<close>: whatever
  the transport does, the result is a boolean and no error leaves the probe. When
  \<open>client.Get\<close> returns an error, \<open>httpCheck\<close> is false, and so is \<open>ping\<close> on an
  HTTP(S) target; when the ping command returns an error, \<open>ping\<close> on a host target is
  false. The last conjunct gives the result of \<open>ping\<close> for every outcome.
\<close>

theorem probe_failure_is_unreachable:
  "(Get w (Target (config m)) = Inl err \<longrightarrow> \<not> httpCheck w m)
   \<and> ((HasPrefix (Target (config m)) ''http://'' \<or> HasPrefix (Target (config m)) ''https://'')
        \<and> Get w (Target (config m)) = Inl err \<longrightarrow> \<not> ping w m)
   \<and> (\<not> (HasPrefix (Target (config m)) ''http://'' \<or> HasPrefix (Target (config m)) ''https://'')
        \<and> Run w ''ping'' [''-c'', ''3'', ''-W'', ''2'', Target (config m)] = Some err
        \<longrightarrow> \<not> ping w m)
   \<and> (ping w m \<longleftrightarrow>
        (if HasPrefix (Target (config m)) ''http://'' \<or> HasPrefix (Target (config m)) ''https://''
         then \<exists>resp. Get w (Target (config m)) = Inr resp \<and> 0 < StatusCode resp
         else Run w ''ping'' [''-c'', ''3'', ''-W'', ''2'', Target (config m)] = None))"
  by (auto simp add: ping_def httpCheck_def split: sum.splits option.splits)

lemma ex_url_prefix: "HasPrefix (Target (config (newMonitor ex_url_cfg))) ''https://''"
  by (simp add: HasPrefix_def newMonitor_def ex_url_cfg_def)

lemma ex_host_prefix:
  "\<not> (HasPrefix (Target (config (newMonitor ex_cfg))) ''http://''
       \<or> HasPrefix (Target (config (newMonitor ex_cfg))) ''https://'')"
  by (simp add: HasPrefix_def newMonitor_def ex_cfg_def)

theorem probe_failure_is_unreachable_witness:
  "HasPrefix (Target (config (newMonitor ex_url_cfg))) ''https://''
   \<and> Get (ex_env False True 100) (Target (config (newMonitor ex_url_cfg))) = Inl (Error ''i/o timeout'')
   \<and> \<not> ping (ex_env False True 100) (newMonitor ex_url_cfg)
   \<and> Run (ex_env False True 100) ''ping'' [''-c'', ''3'', ''-W'', ''2'', Target (config (newMonitor ex_cfg))]
       = Some (Error ''exit status 1'')
   \<and> \<not> ping (ex_env False True 100) (newMonitor ex_cfg)"
proof -
  let ?w = "ex_env False True 100"
  have g: "Get ?w (Target (config (newMonitor ex_url_cfg))) = Inl (Error ''i/o timeout'')"
    by (simp add: ex_env_def)
  have r: "Run ?w ''ping'' [''-c'', ''3'', ''-W'', ''2'', Target (config (newMonitor ex_cfg))]
             = Some (Error ''exit status 1'')"
    by (simp add: ex_env_def)
  from probe_failure_is_unreachable [of ?w "newMonitor ex_url_cfg" "Error ''i/o timeout''"]
       ex_url_prefix g
  have a: "\<not> ping ?w (newMonitor ex_url_cfg)" by blast
  from probe_failure_is_unreachable [of ?w "newMonitor ex_cfg" "Error ''exit status 1''"]
       ex_host_prefix r
  have b: "\<not> ping ?w (newMonitor ex_cfg)" by blast
  from ex_url_prefix g a r b show ?thesis by blast
qed

section \<open>Which responses count as reachable\<close>

text \<open>
  Claim C5. The claim is what the comment in \<open>httpCheck\<close> says: any response,
  whatever its status code, means the server is reachable. The code returns
  \<open>resp.StatusCode > 0\<close> instead of \<open>true\<close>: when the GET is answered by a response
  whose status code is 0, \<open>client.Get\<close> returns that response and no error, and
  \<open>httpCheck\<close>, and with it \<open>ping\<close>, reports the target unreachable, while a
  response with the status code 403 from the same target counts as reachable.
\<close>

theorem httpCheck_status_zero_reports_unreachable:
  "Get ex_status0_env (Target (config (newMonitor ex_url_cfg))) = Inr \<lparr>StatusCode = 0\<rparr>
   \<and> \<not> httpCheck ex_status0_env (newMonitor ex_url_cfg)
   \<and> \<not> ping ex_status0_env (newMonitor ex_url_cfg)
   \<and> Get (ex_env True True 100000000000) (Target (config (newMonitor ex_url_cfg)))
       = Inr \<lparr>StatusCode = 403\<rparr>
   \<and> httpCheck (ex_env True True 100000000000) (newMonitor ex_url_cfg)"
proof -
  have zero: "Get ex_status0_env (Target (config (newMonitor ex_url_cfg))) = Inr \<lparr>StatusCode = 0\<rparr>"
    by (simp add: ex_status0_env_def)
  have h0: "\<not> httpCheck ex_status0_env (newMonitor ex_url_cfg)"
    by (simp add: httpCheck_def zero)
  have p0: "\<not> ping ex_status0_env (newMonitor ex_url_cfg)"
    using ex_url_prefix h0 by (simp add: ping_def)
  have forbidden: "Get (ex_env True True 100000000000) (Target (config (newMonitor ex_url_cfg)))
                     = Inr \<lparr>StatusCode = 403\<rparr>"
    by (simp add: ex_env_def)
  have h403: "httpCheck (ex_env True True 100000000000) (newMonitor ex_url_cfg)"
    by (simp add: httpCheck_def forbidden)
  from zero h0 p0 forbidden h403 show ?thesis by blast
qed

section \<open>Commands are matched by prefix\<close>

lemma HasPrefix_take: "HasPrefix s p \<Longrightarrow> n \<le> length p \<Longrightarrow> take n s = take n p"
proof -
  assume h: "HasPrefix s p" and n: "n \<le> length p"
  from h have "take (length p) s = p" by (simp add: HasPrefix_def)
  then have "take n (take (length p) s) = take n p" by simp
  with n show ?thesis by (simp add: min_def)
qed

lemma status_not_start: "HasPrefix t ''/status'' \<Longrightarrow> \<not> HasPrefix t ''/start''"
  using HasPrefix_take [of t "''/status''" 5] HasPrefix_take [of t "''/start''" 5] by auto

lemma ping_not_status: "HasPrefix t ''/ping'' \<Longrightarrow> \<not> HasPrefix t ''/status''"
  using HasPrefix_take [of t "''/status''" 2] HasPrefix_take [of t "''/ping''" 2] by auto

lemma ping_not_start: "HasPrefix t ''/ping'' \<Longrightarrow> \<not> HasPrefix t ''/start''"
  using HasPrefix_take [of t "''/start''" 2] HasPrefix_take [of t "''/ping''" 2] by auto

lemma dispatch_single:
  "Message u = Some msg \<Longrightarrow>
     dispatch v i offset [u] = (UpdateID u + 1, handleMessage (fst (v i)) (snd (v i)) msg)"
  by (simp add: Let_def)

text \<open>
  Claim C10. For an update that carries a message, at any position of its batch and
  whatever environment \<open>w\<close> and monitor \<open>m\<close> its handling sees, the loop body logs
  the message and then looks at the trimmed text: a text that begins with \<open>/status\<close> (such as
  \<open>/statusfoo\<close>) gets the status report as its reply, a text that begins with
  \<open>/start\<close> gets the start text, a text that begins with \<open>/ping\<close> gets
  "Checking now..." and the goroutine that checks and reports; the loop sends no reply
  exactly when the text begins with none of the three.
\<close>

theorem runBot_matches_by_prefix:
  assumes "Message u = Some msg"
  shows "(let w = fst (v i);
              m = snd (v i);
              text = TrimSpace w (Text msg);
              chatID = show_int (sint (Chat_ID msg));
              done = snd (dispatch v i offset [u])
          in (HasPrefix text ''/status'' \<longrightarrow>
                tl done = [ReplyToChat chatID (getStatus w m)])
             \<and> (HasPrefix text ''/start'' \<longrightarrow>
                tl done = [ReplyToChat chatID (startText chatID)])
             \<and> (HasPrefix text ''/ping'' \<longrightarrow>
                tl done = [ReplyToChat chatID ''Checking now...'', Go chatID])
             \<and> (filter is_reply done = [] \<longleftrightarrow>
                  \<not> HasPrefix text ''/status'' \<and> \<not> HasPrefix text ''/start''
                  \<and> \<not> HasPrefix text ''/ping''))"
  using assms status_not_start [of "TrimSpace (fst (v i)) (Text msg)"]
    ping_not_status [of "TrimSpace (fst (v i)) (Text msg)"]
    ping_not_start [of "TrimSpace (fst (v i)) (Text msg)"]
  by (auto simp add: dispatch_single handleMessage_def Let_def)

lemma trim_statusfoo: "trimASCII ''  /statusfoo '' = ''/statusfoo''"
  by (simp add: trimASCII_def is_space_def)

theorem runBot_matches_by_prefix_witness:
  "Message \<lparr>UpdateID = 9, Message = Some \<lparr>Text = ''  /statusfoo '', Chat_ID = 42\<rparr>\<rparr>
     = Some \<lparr>Text = ''  /statusfoo '', Chat_ID = 42\<rparr>
   \<and> HasPrefix (TrimSpace (ex_env True True 160000000000) ''  /statusfoo '') ''/status''
   \<and> tl (snd (dispatch ex_view 0 0
          [\<lparr>UpdateID = 9, Message = Some \<lparr>Text = ''  /statusfoo '', Chat_ID = 42\<rparr>\<rparr>]))
      = [ReplyToChat ''42'' (getStatus (ex_env True True 160000000000) ex_up)]"
proof -
  let ?w = "ex_env True True 160000000000"
  let ?msg = "\<lparr>Text = ''  /statusfoo '', Chat_ID = 42\<rparr>"
  let ?u = "\<lparr>UpdateID = 9, Message = Some ?msg\<rparr>"
  have h: "Message ?u = Some ?msg" by simp
  have v: "fst (ex_view 0) = ?w" "snd (ex_view 0) = ex_up"
    by (simp_all add: ex_view_def)
  have t: "TrimSpace ?w (Text ?msg) = ''/statusfoo''"
    by (simp add: ex_env_def trim_statusfoo)
  have p: "HasPrefix (TrimSpace ?w ''  /statusfoo '') ''/status''"
    using t by (simp add: HasPrefix_def)
  have c: "show_int (sint (Chat_ID ?msg)) = ''42''"
    by (simp add: show_int_def show_nat.simps digit_char_def)
  from runBot_matches_by_prefix [OF h, of ex_view 0 0]
  have "HasPrefix (TrimSpace ?w (Text ?msg)) ''/status'' \<longrightarrow>
          tl (snd (dispatch ex_view 0 0 [?u]))
            = [ReplyToChat (show_int (sint (Chat_ID ?msg))) (getStatus ?w ex_up)]"
    unfolding Let_def v by blast
  with p c have "tl (snd (dispatch ex_view 0 0 [?u])) = [ReplyToChat ''42'' (getStatus ?w ex_up)]"
    by simp
  with h p show ?thesis by blast
qed

section \<open>The cursor of the command loop\<close>

lemma poll_offsets_append: "poll_offsets (xs @ ys) = poll_offsets xs @ poll_offsets ys"
  by (induction xs rule: poll_offsets.induct) simp_all

lemma poll_offsets_handleMessage: "poll_offsets (handleMessage w m msg) = []"
  by (simp add: handleMessage_def Let_def)

lemma poll_offsets_dispatch: "poll_offsets (snd (dispatch v i offset updates)) = []"
  by (induction updates arbitrary: i offset)
     (simp_all add: Let_def poll_offsets_append poll_offsets_handleMessage split: option.splits)

lemma handling_handleMessage: "filter is_handling (handleMessage w m msg) = handleMessage w m msg"
  by (simp add: handleMessage_def Let_def HasPrefix_def)

lemma dispatch_handlings:
  "snd (dispatch v i offset updates) = concat (map snd (handlings v i updates))"
  by (induction updates arbitrary: i offset) (simp_all add: Let_def split: option.splits)

lemma handlings_tokens:
  "map fst (handlings v i updates) = map UpdateID (filter (\<lambda>u. Message u \<noteq> None) updates)"
  by (induction updates arbitrary: i) (auto split: option.splits)

lemma handling_handlings:
  "filter is_handling (concat (map snd (handlings v i updates)))
     = concat (map snd (handlings v i updates))"
  by (induction updates arbitrary: i) (simp_all add: handling_handleMessage split: option.splits)

lemma handling_runBot_from:
  "filter is_handling (snd (runBot_from offset obs)) = concat (map snd (dispatched offset obs))"
proof (induction obs arbitrary: offset)
  case Nil
  then show ?case by simp
next
  case (Cons a rest)
  obtain w m v where a: "a = (w, m, v)" by (cases a)
  show ?case
  proof (cases "getUpdates w m offset")
    case (Inl err)
    with Cons a show ?thesis by (simp add: Let_def HasPrefix_def)
  next
    case (Inr updates)
    with Cons a show ?thesis
      by (simp add: Let_def dispatch_handlings handling_handlings)
  qed
qed

lemma dispatch_offset:
  "updates \<noteq> [] \<Longrightarrow> fst (dispatch v i offset updates) = UpdateID (last updates) + 1"
  by (induction updates arbitrary: i offset) (auto simp add: Let_def split: option.splits)

lemma poll_offsets_runBot_from_hd:
  "\<exists>more. poll_offsets (snd (runBot_from offset ((w, m, v) # rest))) = offset # more"
  by (simp add: Let_def poll_offsets_append split: sum.splits)

lemma runBot_from_next_poll:
  assumes "getUpdates w m offset = Inr updates"
  shows "take 2 (poll_offsets (snd (runBot_from offset ((w, m, v) # (w', m', v') # rest))))
           = [offset, fst (dispatch v 0 offset updates)]"
proof -
  obtain more where
    "poll_offsets (snd (runBot_from (fst (dispatch v 0 offset updates)) ((w', m', v') # rest)))
       = fst (dispatch v 0 offset updates) # more"
    using poll_offsets_runBot_from_hd by blast
  with assms show ?thesis
    by (simp add: Let_def poll_offsets_append poll_offsets_dispatch)
qed

lemma sint_succ:
  fixes x :: go_int
  assumes "sint x < 2 ^ 63 - 1"
  shows "sint (x + 1) = sint x + 1"
proof -
  have lo: "- (2 ^ 63) \<le> sint x"
    using sint_ge [of x] by simp
  have "sint (x + 1) = signed_take_bit 63 (sint x + 1)"
    by (simp add: sint_word_ariths)
  also have "\<dots> = sint x + 1"
    using lo assms by (intro signed_take_bit_int_eq_self) simp_all
  finally show ?thesis .
qed

lemma sorted_le_last:
  "sorted_wrt (<) (map f xs) \<Longrightarrow> x \<in> set xs \<Longrightarrow> (f x :: int) \<le> f (last xs)"
  by (induction xs) (auto simp add: less_imp_le)

lemma dispatch_offset_above:
  assumes s: "sorted_wrt (<) (map (\<lambda>u. sint (UpdateID u)) updates)"
    and b: "list_all (\<lambda>u. sint offset \<le> sint (UpdateID u) \<and> sint (UpdateID u) < 2 ^ 63 - 1) updates"
  shows "sint offset \<le> sint (fst (dispatch v i offset updates))
         \<and> (\<forall>u \<in> set updates. sint (UpdateID u) < sint (fst (dispatch v i offset updates)))"
proof (cases "updates = []")
  case True
  then show ?thesis by simp
next
  case False
  let ?l = "last updates"
  have lin: "?l \<in> set updates" using False by simp
  with b have lb: "sint offset \<le> sint (UpdateID ?l)" "sint (UpdateID ?l) < 2 ^ 63 - 1"
    by (simp_all add: list_all_iff)
  have o: "sint (fst (dispatch v i offset updates)) = sint (UpdateID ?l) + 1"
    by (simp add: dispatch_offset [OF False] sint_succ [OF lb(2)])
  have "sint (UpdateID u) < sint (UpdateID ?l) + 1" if "u \<in> set updates" for u
    using sorted_le_last [OF s that] by simp
  with o lb show ?thesis by simp
qed

lemma honours_dispatched_sorted:
  "honours offset obs \<Longrightarrow>
     sorted_wrt (<) (map (\<lambda>h. sint (fst h)) (dispatched offset obs))
     \<and> (\<forall>h \<in> set (dispatched offset obs). sint offset \<le> sint (fst h))"
proof (induction obs arbitrary: offset)
  case Nil
  then show ?case by simp
next
  case (Cons a rest)
  obtain w m v where a: "a = (w, m, v)" by (cases a)
  show ?case
  proof (cases "getUpdates w m offset")
    case (Inl err)
    with Cons a show ?thesis by simp
  next
    case (Inr updates)
    let ?o = "fst (dispatch v 0 offset updates)"
    let ?now = "handlings v 0 updates"
    from Cons.prems a Inr have
      s: "sorted_wrt (<) (map (\<lambda>u. sint (UpdateID u)) updates)" and
      b: "list_all (\<lambda>u. sint offset \<le> sint (UpdateID u) \<and> sint (UpdateID u) < 2 ^ 63 - 1) updates" and
      h: "honours ?o rest"
      by simp_all
    from Cons.IH [OF h] have
      rs: "sorted_wrt (<) (map (\<lambda>h. sint (fst h)) (dispatched ?o rest))" and
      rb: "\<forall>h \<in> set (dispatched ?o rest). sint ?o \<le> sint (fst h)"
      by simp_all
    from dispatch_offset_above [OF s b, of v 0] have
      oo: "sint offset \<le> sint ?o" and
      ou: "\<forall>u \<in> set updates. sint (UpdateID u) < sint ?o"
      by simp_all
    have tok: "map (\<lambda>h. sint (fst h)) ?now
                 = map (\<lambda>u. sint (UpdateID u)) (filter (\<lambda>u. Message u \<noteq> None) updates)"
      using handlings_tokens [of v 0 updates, THEN arg_cong, of "map sint"]
      by (simp add: comp_def)
    have ns: "sorted_wrt (<) (map (\<lambda>h. sint (fst h)) ?now)"
      using s by (simp add: tok sorted_wrt_map sorted_wrt_filter)
    have mem: "\<exists>u \<in> set updates. fst h = UpdateID u" if "h \<in> set ?now" for h
    proof -
      from that have "fst h \<in> set (map fst ?now)" by simp
      then show ?thesis by (auto simp add: handlings_tokens)
    qed
    have cross: "\<forall>x \<in> set ?now. \<forall>y \<in> set (dispatched ?o rest). sint (fst x) < sint (fst y)"
      using ou rb mem by fastforce
    have lowb: "\<forall>h \<in> set ?now. sint offset \<le> sint (fst h)"
      using b mem by (fastforce simp add: list_all_iff)
    have d: "dispatched offset (a # rest) = ?now @ dispatched ?o rest"
      using a Inr by simp
    have "sorted_wrt (<) (map (\<lambda>h. sint (fst h)) (dispatched offset (a # rest)))"
      using ns rs cross by (simp add: d sorted_wrt_append)
    moreover have "\<forall>h \<in> set (dispatched offset (a # rest)). sint offset \<le> sint (fst h)"
      using lowb rb oo by (auto simp add: d)
    ultimately show ?thesis by simp
  qed
qed

lemma honours_dispatched_distinct:
  assumes "honours offset obs"
  shows "distinct (map fst (dispatched offset obs))"
proof -
  from honours_dispatched_sorted [OF assms]
  have "sorted_wrt (<) (map (\<lambda>h. sint (fst h)) (dispatched offset obs))" by simp
  then have "distinct (map (\<lambda>h. sint (fst h)) (dispatched offset obs))"
    by (simp add: strict_sorted_iff)
  then have "distinct (map sint (map fst (dispatched offset obs)))"
    by (simp add: comp_def)
  then show ?thesis by (simp only: distinct_map)
qed

lemma ex_view_handle:
  "handleMessage (fst (ex_view i)) (snd (ex_view i)) \<lparr>Text = ''/start'', Chat_ID = 42\<rparr>
     = [LogPrintf ''Received message from chat 42: /start'', ReplyToChat ''42'' (startText ''42'')]"
  "handleMessage (fst (ex_view i)) (snd (ex_view i)) \<lparr>Text = ''/ping'', Chat_ID = 42\<rparr>
     = [LogPrintf ''Received message from chat 42: /ping'', ReplyToChat ''42'' ''Checking now...'',
        Go ''42'']"
  "handleMessage (fst (ex_view i)) (snd (ex_view i)) \<lparr>Text = ''hello'', Chat_ID = 42\<rparr>
     = [LogPrintf ''Received message from chat 42: hello'']"
proof -
  have t: "TrimSpace (fst (ex_view i)) = trimASCII"
    by (simp add: ex_view_def ex_env_def)
  have tr: "trimASCII ''/start'' = ''/start''" "trimASCII ''/ping'' = ''/ping''"
      "trimASCII ''hello'' = ''hello''"
    by (simp_all add: trimASCII_def is_space_def)
  have c: "show_int 42 = ''42''"
    by (simp add: show_int_def show_nat.simps digit_char_def)
  show "handleMessage (fst (ex_view i)) (snd (ex_view i)) \<lparr>Text = ''/start'', Chat_ID = 42\<rparr>
     = [LogPrintf ''Received message from chat 42: /start'', ReplyToChat ''42'' (startText ''42'')]"
    by (simp add: handleMessage_def Let_def t tr c HasPrefix_def)
  show "handleMessage (fst (ex_view i)) (snd (ex_view i)) \<lparr>Text = ''/ping'', Chat_ID = 42\<rparr>
     = [LogPrintf ''Received message from chat 42: /ping'', ReplyToChat ''42'' ''Checking now...'',
        Go ''42'']"
    by (simp add: handleMessage_def Let_def t tr c HasPrefix_def)
  show "handleMessage (fst (ex_view i)) (snd (ex_view i)) \<lparr>Text = ''hello'', Chat_ID = 42\<rparr>
     = [LogPrintf ''Received message from chat 42: hello'']"
    by (simp add: handleMessage_def Let_def t tr c HasPrefix_def)
qed

lemma ex_dispatch:
  "dispatch ex_view 0 off ex_updates =
     (8, [LogPrintf ''Received message from chat 42: /start'',
          ReplyToChat ''42'' (startText ''42''),
          LogPrintf ''Received message from chat 42: /ping'',
          ReplyToChat ''42'' ''Checking now...'',
          Go ''42'',
          LogPrintf ''Received message from chat 42: hello''])"
  by (simp add: ex_updates_def Let_def ex_view_handle)

lemma ex_handlings:
  "map fst (handlings ex_view 0 ex_updates) = [5, 6, 7]"
  "map fst (handlings ex_view 0 ex_next_updates) = [8, 9]"
  by (simp_all add: handlings_tokens ex_updates_def ex_next_updates_def)

text \<open>
  Claim C7, as stated, fails in its second half: the loop dispatches every update of
  every response and never compares a token with its cursor. When the command source
  answers the poll at offset 0 and the poll at offset 8 with the same commands 5, 6
  and 7, each of them is dispatched twice: the command 6 (\<open>/ping\<close>) is acknowledged
  twice and its goroutine is started twice.
\<close>

theorem runBot_duplicate_responses_counterexample:
  "poll_offsets (snd (runBot [(ex_dup_env, ex_up, ex_view), (ex_dup_env, ex_up, ex_view)])) = [0, 8]
   \<and> getUpdates ex_dup_env ex_up 0 = Inr ex_updates
   \<and> getUpdates ex_dup_env ex_up 8 = Inr ex_updates
   \<and> map UpdateID ex_updates = [5, 6, 7]
   \<and> map fst (dispatched 0 [(ex_dup_env, ex_up, ex_view), (ex_dup_env, ex_up, ex_view)])
       = [5, 6, 7, 5, 6, 7]
   \<and> count_list (snd (runBot [(ex_dup_env, ex_up, ex_view), (ex_dup_env, ex_up, ex_view)]))
        (ReplyToChat ''42'' ''Checking now...'') = 2
   \<and> count_list (snd (runBot [(ex_dup_env, ex_up, ex_view), (ex_dup_env, ex_up, ex_view)]))
        (Go ''42'') = 2"
proof -
  let ?obs = "[(ex_dup_env, ex_up, ex_view), (ex_dup_env, ex_up, ex_view)]"
  have g: "getUpdates ex_dup_env mm off = Inr ex_updates" for mm off
    by (simp add: getUpdates_def ex_dup_env_def)
  have ne: "startText ''42'' \<noteq> ''Checking now...''"
    by (simp add: startText_def)
  have r: "snd (runBot ?obs) =
             [GetUpdates 0] @ snd (dispatch ex_view 0 0 ex_updates) @ [Sleep 1]
             @ [GetUpdates 8] @ snd (dispatch ex_view 0 8 ex_updates) @ [Sleep 1]"
    by (simp add: runBot_def g Let_def ex_dispatch)
  have dd: "map fst (dispatched 0 ?obs) = [5, 6, 7, 5, 6, 7]"
    by (simp add: g ex_dispatch ex_handlings)
  have rest: "poll_offsets (snd (runBot ?obs)) = [0, 8]
      \<and> count_list (snd (runBot ?obs)) (ReplyToChat ''42'' ''Checking now...'') = 2
      \<and> count_list (snd (runBot ?obs)) (Go ''42'') = 2"
    by (simp add: r ex_dispatch ne)
  have t: "map UpdateID ex_updates = [5, 6, 7]"
    by (simp add: ex_updates_def)
  from rest g [of ex_up 0] g [of ex_up 8] t dd show ?thesis by blast
qed

text \<open>
  Claim C7, amended. When a poll delivers commands with the tokens 5, 6 and 7 in one
  response, the cursor after dispatching them is 8, which is greater than 7, and 8 is
  the offset the next poll requests. The loop does not filter duplicates: the effects
  of a batch are the handlings of its updates with a message, each update handled
  exactly once and in order, whatever its token and whatever the cursor, and the
  handling effects in the trace of a run are exactly these handlings, batch after
  batch. So no command is dispatched twice as long as the command source honours
  the offsets it is asked for: every response holds only tokens at or above the
  offset of its poll, in strictly increasing order and below the largest \<open>int\<close>
  (\<open>2 ^ 63 - 1\<close>, beyond which the cursor would wrap around).
\<close>

theorem runBot_cursor_after_tokens:
  assumes "getUpdates w m offset = Inr updates" and "map UpdateID updates = [5, 6, 7]"
  shows "fst (dispatch v 0 offset updates) = 8
         \<and> sint (7 :: go_int) < sint (fst (dispatch v 0 offset updates))
         \<and> take 2 (poll_offsets (snd (runBot_from offset ((w, m, v) # (w', m', v') # rest))))
             = [offset, 8]
         \<and> snd (dispatch v 0 offset updates) = concat (map snd (handlings v 0 updates))
         \<and> map fst (handlings v 0 updates) = map UpdateID (filter (\<lambda>u. Message u \<noteq> None) updates)
         \<and> filter is_handling (snd (runBot_from offset ((w, m, v) # (w', m', v') # rest)))
             = concat (map snd (dispatched offset ((w, m, v) # (w', m', v') # rest)))
         \<and> (honours offset ((w, m, v) # (w', m', v') # rest)
              \<longrightarrow> distinct (map fst (dispatched offset ((w, m, v) # (w', m', v') # rest))))"
proof -
  from assms(2) have ne: "updates \<noteq> []" by auto
  have "last (map UpdateID updates) = 7" using assms(2) by simp
  then have l: "UpdateID (last updates) = 7" using ne by (simp add: last_map)
  have A: "fst (dispatch v 0 offset updates) = 8"
    using dispatch_offset [OF ne, of v 0 offset] l by simp
  have B: "sint (7 :: go_int) < sint (fst (dispatch v 0 offset updates))"
    by (simp add: A)
  have C: "take 2 (poll_offsets (snd (runBot_from offset ((w, m, v) # (w', m', v') # rest))))
             = [offset, 8]"
    using runBot_from_next_poll [OF assms(1), of v w' m' v' rest] A by simp
  have D: "snd (dispatch v 0 offset updates) = concat (map snd (handlings v 0 updates))"
    by (rule dispatch_handlings)
  have E: "map fst (handlings v 0 updates) = map UpdateID (filter (\<lambda>u. Message u \<noteq> None) updates)"
    by (rule handlings_tokens)
  have F: "filter is_handling (snd (runBot_from offset ((w, m, v) # (w', m', v') # rest)))
             = concat (map snd (dispatched offset ((w, m, v) # (w', m', v') # rest)))"
    by (rule handling_runBot_from)
  have G: "distinct (map fst (dispatched offset ((w, m, v) # (w', m', v') # rest)))"
    if "honours offset ((w, m, v) # (w', m', v') # rest)"
    using that by (rule honours_dispatched_distinct)
  from A B C D E F G show ?thesis by blast
qed

theorem runBot_cursor_after_tokens_witness:
  "getUpdates ex_dup_env ex_up 0 = Inr ex_updates
   \<and> map UpdateID ex_updates = [5, 6, 7]
   \<and> getUpdates ex_next_env ex_up 8 = Inr ex_next_updates
   \<and> honours 0 [(ex_dup_env, ex_up, ex_view), (ex_next_env, ex_up, ex_view)]
   \<and> take 2 (poll_offsets (snd (runBot_from 0
        [(ex_dup_env, ex_up, ex_view), (ex_next_env, ex_up, ex_view)]))) = [0, 8]
   \<and> map fst (dispatched 0 [(ex_dup_env, ex_up, ex_view), (ex_next_env, ex_up, ex_view)])
       = [5, 6, 7, 8, 9]
   \<and> distinct (map fst (dispatched 0 [(ex_dup_env, ex_up, ex_view), (ex_next_env, ex_up, ex_view)]))"
proof -
  let ?obs = "[(ex_dup_env, ex_up, ex_view), (ex_next_env, ex_up, ex_view)]"
  have g: "getUpdates ex_dup_env ex_up 0 = Inr ex_updates"
    by (simp add: getUpdates_def ex_dup_env_def)
  have g2: "getUpdates ex_next_env ex_up off = Inr ex_next_updates" for off
    by (simp add: getUpdates_def ex_next_env_def)
  have t: "map UpdateID ex_updates = [5, 6, 7]"
    by (simp add: ex_updates_def)
  have h: "honours 0 ?obs"
    by (simp add: g g2 ex_dispatch) (simp add: ex_updates_def ex_next_updates_def)
  have d: "map fst (dispatched 0 ?obs) = [5, 6, 7, 8, 9]"
    by (simp add: g g2 ex_dispatch ex_handlings)
  from runBot_cursor_after_tokens [OF g t, of ex_view ex_next_env ex_up ex_view "[]"] h
  have "take 2 (poll_offsets (snd (runBot_from 0 ?obs))) = [0, 8]
        \<and> distinct (map fst (dispatched 0 ?obs))"
    by blast
  with g t g2 [of 8] h d show ?thesis by blast
qed

end
